theory Spec2Isabelle
  imports Complex_Main "HOL-Library.Multiset"
begin

section \<open>The Docdata status reconciliation of \<open>oscar_docdata/interface.py\<close>\<close>

text \<open>
  The development embeds the methods \<open>_store_report\<close>, \<open>_set_status\<close>,
  \<open>_store_report_lines\<close>, \<open>_get_payment_sum\<close>, \<open>_process_authorized_payment\<close>,
  \<open>order_status_changed\<close> and \<open>_to_decimal\<close> of the class \<open>Interface\<close>.
  Python names that start with an underscore lose it, and attribute names that clash
  with another record's field carry a short prefix.

  Conventions of the embedding:
  \<^item> Python integers are \<open>int\<close>; \<open>Decimal\<close> values are \<open>rat\<close>: the amounts are
    integers divided by 100, which \<open>Decimal\<close> holds exactly up to the 28 significant
    digits of its context; beyond them Python rounds and the model does not;
  \<^item> a payment id is an \<open>int\<close>, in the report and in the stored row alike, so the
    sort of \<open>ddpayment_objects\<close> at line 481 is numeric; the list it sorts is
    returned to \<open>_store_report\<close>, which does not use it;
  \<^item> \<open>hasattr(x, 'a')\<close> is an \<open>option\<close>-valued field: \<open>None\<close> when the attribute
    is absent;
  \<^item> an exception is the \<open>Inl\<close> of a sum type;
  \<^item> the database, the signals, the log records of level warning and error and the
    statements sent to the database are the explicit \<open>pass_state\<close>; records of
    level info and debug are not kept;
  \<^item> the clock \<open>now()\<close> is an argument, in microseconds.
\<close>

subsection \<open>Statuses and errors\<close>

text \<open>
  The values \<open>DocdataOrder.STATUS_*\<close>. The ten constants are declared in
  \<open>models.py\<close>; \<open>STATUS_OTHER s\<close> stands for a Python string \<open>s\<close> that is none of
  them.
\<close>

datatype order_status =
    STATUS_NEW
  | STATUS_IN_PROGRESS
  | STATUS_PENDING
  | STATUS_PAID
  | STATUS_PAID_REFUNDED
  | STATUS_CANCELLED
  | STATUS_CHARGED_BACK
  | STATUS_REFUNDED
  | STATUS_EXPIRED
  | STATUS_UNKNOWN
  | STATUS_OTHER string

text \<open>
  Modelled from the spec: \<open>DocdataOrder.STATUS_CHOICES\<close> is declared in
  \<open>models.py\<close>, which is not among the sources; section 3 of the specification lists
  the recognised order statuses.
\<close>

definition STATUS_CHOICES :: "order_status list" where
  "STATUS_CHOICES =
     [STATUS_NEW, STATUS_IN_PROGRESS, STATUS_PENDING, STATUS_PAID, STATUS_PAID_REFUNDED,
      STATUS_REFUNDED, STATUS_CANCELLED, STATUS_CHARGED_BACK, STATUS_EXPIRED,
      STATUS_UNKNOWN]"

datatype py_error = IndexError | AttributeError | IntegrityError

subsection \<open>The status report\<close>

record amount =
  amount_value :: int
  amount_currency :: string

text \<open>One \<open>capture\<close>, \<open>refund\<close> or \<open>chargeback\<close> element of an authorization.\<close>

record tag =
  tag_status :: string
  tag_amount :: amount

record authorization =
  auth_status :: string
  auth_amount :: amount
  confidenceLevel :: string
  capture :: "tag list option"
  refund :: "tag list option"
  chargeback :: "tag list option"

record payment =
  p_id :: int
  paymentMethod :: string
  p_authorization :: authorization

record approximate_totals =
  totalRegistered :: int
  totalShopperPending :: int
  totalAcquirerPending :: int
  totalAcquirerApproved :: int
  totalCaptured :: int
  totalRefunded :: int
  totalChargedback :: int
  exchangedTo :: string

record report =
  approximateTotals :: approximate_totals
  r_payment :: "payment list option"

subsection \<open>The stored order and payment lines\<close>

record docdata_order =
  order_key :: string
  currency :: string
  total_gross_amount :: rat
  status :: order_status
  created :: int
  total_registered :: rat
  total_shopper_pending :: rat
  total_acquirer_pending :: rat
  total_acquirer_approved :: rat
  total_captured :: rat
  total_refunded :: rat
  total_charged_back :: rat

record docdata_payment =
  docdata_order_key :: string
  payment_id :: int
  payment_method :: string
  confidence_level :: string
  amount_allocated :: rat
  amount_debited :: rat
  amount_refunded :: rat
  amount_chargeback :: rat
  dd_status :: string

subsection \<open>Settings\<close>

text \<open>
  What the module reads from \<open>appsettings\<close> and from the class \<open>DocdataClient\<close>,
  neither of which is among the sources: the margin table, the gateway's status
  constants, and the two vocabularies of authorization statuses. They are
  parameters of every function that uses them, together with the field defaults that
  the model class \<open>DocdataPayment\<close> (\<open>models.py\<close>) gives a new object.
\<close>

record settings =
  DOCDATA_PAYMENT_SUCCESS_MARGIN :: "string \<rightharpoonup> int"
  CLIENT_STATUS_NEW :: string
  CLIENT_STATUS_STARTED :: string
  CLIENT_STATUS_REDIRECTED_FOR_AUTHENTICATION :: string
  CLIENT_STATUS_AUTHORIZATION_REQUESTED :: string
  CLIENT_STATUS_AUTHORIZED :: string
  CLIENT_STATUS_PAID :: string
  CLIENT_STATUS_CANCELLED :: string
  CLIENT_STATUS_CHARGED_BACK :: string
  CLIENT_STATUS_CONFIRMED_PAID :: string
  CLIENT_STATUS_CONFIRMED_CHARGEDBACK :: string
  CLIENT_STATUS_CLOSED_SUCCESS :: string
  CLIENT_STATUS_CLOSED_CANCELLED :: string
  DOCUMENTED_STATUS_VALUES :: "string list"
  SEEN_UNDOCUMENTED_STATUS_VALUES :: "string list"
  PAYMENT_DEFAULTS :: docdata_payment

text \<open>
  The class attribute \<open>status_mapping\<close>, a dict literal: of two entries with the
  same key the later one stands, so the lookup reads the entries from the last.
\<close>

definition status_mapping_items :: "settings \<Rightarrow> (string \<times> order_status) list" where
  "status_mapping_items cfg =
     [(CLIENT_STATUS_NEW cfg, STATUS_NEW),
      (CLIENT_STATUS_STARTED cfg, STATUS_NEW),
      (CLIENT_STATUS_REDIRECTED_FOR_AUTHENTICATION cfg, STATUS_IN_PROGRESS),
      (CLIENT_STATUS_AUTHORIZATION_REQUESTED cfg, STATUS_PENDING),
      (CLIENT_STATUS_AUTHORIZED cfg, STATUS_PENDING),
      (CLIENT_STATUS_PAID cfg, STATUS_PENDING),
      (CLIENT_STATUS_CANCELLED cfg, STATUS_CANCELLED),
      (CLIENT_STATUS_CHARGED_BACK cfg, STATUS_CHARGED_BACK),
      (CLIENT_STATUS_CONFIRMED_PAID cfg, STATUS_PAID),
      (CLIENT_STATUS_CONFIRMED_CHARGEDBACK cfg, STATUS_CHARGED_BACK),
      (CLIENT_STATUS_CLOSED_SUCCESS cfg, STATUS_PAID),
      (CLIENT_STATUS_CLOSED_CANCELLED cfg, STATUS_CANCELLED)]"

definition status_mapping :: "settings \<Rightarrow> string \<rightharpoonup> order_status" where
  "status_mapping cfg = map_of (rev (status_mapping_items cfg))"

subsection \<open>Signals, log and database statements\<close>

datatype event =
    Payment_added string docdata_payment
  | Payment_updated string docdata_payment
  | Order_status_changed string order_status order_status

text \<open>The log records of level warning and error, one constructor per call.\<close>

datatype log_record =
    Error_no_payment_unknown_totals string
  | Warning_status_unknown string order_status
  | Warn_payment_method_mismatch int string
  | Warn_unknown_payment_status int string
  | Warn_concurrency_issues string
  | Error_total_mismatch string int int
  | Error_negative_payment_sum string int

datatype db_write = Save_order docdata_order | Save_payment docdata_payment

text \<open>
  The world a pass works on: the table of \<open>DocdataPayment\<close> rows by payment id,
  the signals sent, the log, and the statements sent to the database, each list in
  the order of the calls.
\<close>

record pass_state =
  payments_table :: "int \<rightharpoonup> docdata_payment"
  events :: "event list"
  logged :: "log_record list"
  writes :: "db_write list"

subsection \<open>Amounts\<close>

text \<open>\<open>_to_decimal\<close>: \<open>D(int(amount.value)) / 100\<close>.\<close>

definition to_decimal :: "amount \<Rightarrow> rat" where
  "to_decimal a = of_int (amount_value a) / 100"

text \<open>\<open>getattr(authorization, xml_tag)\<close> behind \<open>hasattr(authorization, xml_tag)\<close>.\<close>

definition authorization_attr :: "authorization \<Rightarrow> string \<Rightarrow> tag list option" where
  "authorization_attr a xml_tag =
     (if xml_tag = ''capture'' then capture a
      else if xml_tag = ''refund'' then refund a
      else if xml_tag = ''chargeback'' then chargeback a
      else None)"

fun sum_tags :: "rat \<Rightarrow> tag list \<Rightarrow> string \<Rightarrow> rat" where
  "sum_tags amount [] success_status = amount"
| "sum_tags amount (t # ts) success_status =
     (if tag_status t = success_status
      then sum_tags (amount + to_decimal (tag_amount t)) ts success_status
      else sum_tags amount ts success_status)"

definition get_payment_sum :: "payment \<Rightarrow> string \<Rightarrow> string \<Rightarrow> rat" where
  "get_payment_sum p xml_tag success_status =
     (case authorization_attr (p_authorization p) xml_tag of
        None \<Rightarrow> 0
      | Some tags \<Rightarrow> sum_tags 0 tags success_status)"

subsection \<open>The decision for an authorized payment\<close>

text \<open>
  Lines 521 to 529 of \<open>_process_authorized_payment\<close>: the margin. \<open>report.payment\<close>
  is read only when the currencies agree; a report without the attribute raises an
  \<open>AttributeError\<close> there.
\<close>

definition payment_margin :: "settings \<Rightarrow> docdata_order \<Rightarrow> report \<Rightarrow> py_error + int" where
  "payment_margin cfg order rep =
     (let totals = approximateTotals rep in
      if currency order = exchangedTo totals then
        (case r_payment rep of
           None \<Rightarrow> Inl AttributeError
         | Some ps \<Rightarrow>
             if list_ex (\<lambda>p. amount_currency (auth_amount (p_authorization p)) \<noteq> currency order) ps
             then
               (let margin =
                      (case DOCDATA_PAYMENT_SUCCESS_MARGIN cfg (exchangedTo totals) of
                         None \<Rightarrow> 0
                       | Some m \<Rightarrow> m)
                in if margin \<ge> totalRegistered totals then Inr 0 else Inr margin)
             else Inr 0)
      else Inr 0)"

text \<open>
  Lines 588 to 604, the body of the branch \<open>payment_sum == 0\<close>: two \<open>if\<close>
  statements in a row, the second assigning after the first.
\<close>

definition payment_sum_zero_status :: "approximate_totals \<Rightarrow> order_status option" where
  "payment_sum_zero_status totals =
     (let new_status = None;
          new_status = (if totalCaptured totals = totalChargedback totals
                        then Some STATUS_CHARGED_BACK else new_status);
          new_status = (if totalCaptured totals = totalRefunded totals
                        then Some STATUS_REFUNDED else new_status)
      in new_status)"

text \<open>Lines 540 to 621, for a margin already computed.\<close>

definition authorized_payment_status ::
  "docdata_order \<Rightarrow> approximate_totals \<Rightarrow> int \<Rightarrow> order_status option \<times> log_record list" where
  "authorized_payment_status order totals margin =
     (if totalCaptured totals < totalRegistered totals - margin then (None, [])
      else
        (let payment_sum = totalCaptured totals - totalChargedback totals - totalRefunded totals
         in if payment_sum \<ge> totalRegistered totals - margin then (Some STATUS_PAID, [])
            else if payment_sum = 0 then (payment_sum_zero_status totals, [])
            else if payment_sum > 0 then (Some STATUS_PAID_REFUNDED, [])
            else (Some STATUS_UNKNOWN,
                  [Error_negative_payment_sum (order_key order) payment_sum])))"

definition process_authorized_payment ::
  "settings \<Rightarrow> docdata_order \<Rightarrow> report \<Rightarrow> payment
     \<Rightarrow> py_error + (order_status option \<times> log_record list)" where
  "process_authorized_payment cfg order rep p =
     (case payment_margin cfg order rep of
        Inl e \<Rightarrow> Inl e
      | Inr margin \<Rightarrow> Inr (authorized_payment_status order (approximateTotals rep) margin))"

subsection \<open>Assigning the order status\<close>

text \<open>\<open>_set_status\<close>: the flag returned, the order, and the warning if one is logged.\<close>

definition set_status ::
  "docdata_order \<Rightarrow> order_status \<Rightarrow> bool \<times> docdata_order \<times> log_record list" where
  "set_status order new_status =
     (let old_status = status order
      in if old_status \<noteq> new_status then
           (if new_status \<notin> set STATUS_CHOICES
            then (True, order\<lparr>status := STATUS_UNKNOWN\<rparr>,
                  [Warning_status_unknown (order_key order) old_status])
            else (True, order\<lparr>status := new_status\<rparr>, []))
         else (False, order, []))"

text \<open>The method \<open>order_status_changed\<close>: the signal is sent unless both statuses agree.\<close>

definition order_status_changed ::
  "docdata_order \<Rightarrow> order_status \<Rightarrow> order_status \<Rightarrow> pass_state \<Rightarrow> pass_state" where
  "order_status_changed docdataorder old_status new_status st =
     (if old_status = new_status then st
      else st\<lparr>events := events st
                  @ [Order_status_changed (order_key docdataorder) old_status new_status]\<rparr>)"

subsection \<open>A report without payments\<close>

text \<open>
  Python's \<open>indented_status or default\<close>: the default stands when the intended
  status is \<open>None\<close> or the empty string, the two falsy values a status can be.
\<close>

fun status_or :: "order_status option \<Rightarrow> order_status \<Rightarrow> order_status" where
  "status_or None d = d"
| "status_or (Some (STATUS_OTHER [])) d = d"
| "status_or (Some s) d = s"

definition timedelta_days :: "int \<Rightarrow> int" where
  "timedelta_days d = d * 86400000000"

text \<open>Lines 242 to 268 of \<open>_store_report\<close>: the new status and what is logged.\<close>

definition no_payment_status ::
  "int \<Rightarrow> docdata_order \<Rightarrow> approximate_totals \<Rightarrow> order_status option
     \<Rightarrow> order_status \<times> log_record list" where
  "no_payment_status now order totals indented_status =
     (if totalShopperPending totals = 0
         \<and> totalAcquirerPending totals = 0
         \<and> totalAcquirerApproved totals = 0
         \<and> totalCaptured totals = 0
         \<and> totalRefunded totals = 0
         \<and> totalChargedback totals = 0
      then
        (if status order = STATUS_CANCELLED then (status order, [])
         else if created order < now - timedelta_days 21
              then (status_or indented_status STATUS_EXPIRED, [])
              else (status_or indented_status STATUS_NEW, []))
      else
        (if status order \<in> {STATUS_EXPIRED, STATUS_CANCELLED}
         then (status order, [Error_no_payment_unknown_totals (order_key order)])
         else (status_or indented_status STATUS_NEW,
               [Error_no_payment_unknown_totals (order_key order)])))"

subsection \<open>One payment line\<close>

text \<open>
  Lines 360 to 369: the stored row of the payment id, or a new object; the flag is
  \<open>added\<close>.
\<close>

definition find_or_new ::
  "settings \<Rightarrow> docdata_order \<Rightarrow> payment \<Rightarrow> pass_state \<Rightarrow> docdata_payment \<times> bool" where
  "find_or_new cfg order p st =
     (case payments_table st (p_id p) of
        Some ddpayment \<Rightarrow> (ddpayment, False)
      | None \<Rightarrow>
          ((PAYMENT_DEFAULTS cfg)\<lparr>docdata_order_key := order_key order,
                                  payment_id := p_id p,
                                  payment_method := paymentMethod p\<rparr>, True))"

text \<open>
  Lines 371 to 411: the fields are overwritten from the report entry; the result is
  the object, the flag \<open>updated\<close> and the warnings.
\<close>

definition update_fields ::
  "settings \<Rightarrow> payment \<Rightarrow> rat \<Rightarrow> docdata_payment
     \<Rightarrow> docdata_payment \<times> bool \<times> log_record list" where
  "update_fields cfg p allocated ddpayment0 =
     (let authorization = p_authorization p;
          auth = auth_status authorization;
          method_differs = (\<not> paymentMethod p = payment_method ddpayment0);
          msgs1 = (if method_differs
                   then [Warn_payment_method_mismatch (payment_id ddpayment0) (paymentMethod p)]
                   else []);
          ddpayment1 = (if method_differs
                        then ddpayment0\<lparr>payment_method := paymentMethod p\<rparr>
                        else ddpayment0);
          old_values = (confidence_level ddpayment1, amount_allocated ddpayment1,
                        amount_chargeback ddpayment1, amount_refunded ddpayment1,
                        amount_debited ddpayment1);
          ddpayment2 = ddpayment1\<lparr>
            confidence_level := confidenceLevel authorization,
            amount_allocated := allocated,
            amount_debited := get_payment_sum p ''capture'' ''CAPTURED'',
            amount_refunded := get_payment_sum p ''refund'' ''CAPTURED'',
            amount_chargeback := get_payment_sum p ''chargeback'' ''CHARGED''\<rparr>;
          new_values = (confidence_level ddpayment2, amount_allocated ddpayment2,
                        amount_chargeback ddpayment2, amount_refunded ddpayment2,
                        amount_debited ddpayment2);
          values_differ = (old_values \<noteq> new_values);
          status_differs = (dd_status ddpayment2 \<noteq> auth);
          msgs2 = (if status_differs
                      \<and> auth \<notin> set (DOCUMENTED_STATUS_VALUES cfg)
                      \<and> auth \<notin> set (SEEN_UNDOCUMENTED_STATUS_VALUES cfg)
                   then [Warn_unknown_payment_status (p_id p) auth]
                   else []);
          ddpayment3 = (if status_differs then ddpayment2\<lparr>dd_status := auth\<rparr>
                        else ddpayment2)
      in (ddpayment3, method_differs \<or> values_differ \<or> status_differs, msgs1 @ msgs2))"

text \<open>
  \<open>ddpayment.save()\<close> of Django, which is not among the sources: a new object is
  inserted and an existing one overwritten, by its payment id. \<open>racing\<close> is the set
  of payment ids that a concurrent pass inserts after this pass looked them up; the
  insert of such an id violates the uniqueness of the key.
\<close>

definition save_payment ::
  "int set \<Rightarrow> bool \<Rightarrow> docdata_payment \<Rightarrow> pass_state \<Rightarrow> py_error + pass_state" where
  "save_payment racing adding ddpayment st =
     (if adding \<and> payment_id ddpayment \<in> racing then Inl IntegrityError
      else Inr (st\<lparr>payments_table := (payments_table st)(payment_id ddpayment \<mapsto> ddpayment),
                   writes := writes st @ [Save_payment ddpayment]\<rparr>))"

text \<open>
  \<open>template.format(*args)\<close> for a template whose replacement fields are the
  positions \<open>positions\<close>: an \<open>IndexError\<close> when a position has no argument.
\<close>

definition str_format :: "nat list \<Rightarrow> 'a list \<Rightarrow> py_error + unit" where
  "str_format positions args =
     (if list_all (\<lambda>i. i < length args) positions then Inr () else Inl IndexError)"

definition send_payment_event ::
  "bool \<Rightarrow> docdata_order \<Rightarrow> docdata_payment \<Rightarrow> pass_state \<Rightarrow> pass_state" where
  "send_payment_event added order ddpayment st =
     (if added then st\<lparr>events := events st @ [Payment_added (order_key order) ddpayment]\<rparr>
      else st\<lparr>events := events st @ [Payment_updated (order_key order) ddpayment]\<rparr>)"

text \<open>
  Lines 413 to 435, entered when \<open>added or updated\<close>. The handler of the
  \<open>IntegrityError\<close> formats its warning from the template
  \<open>"... payment id {0}: {1}"\<close> with the one argument \<open>payment.id\<close>, before it
  saves again.
\<close>

definition persist_line ::
  "int set \<Rightarrow> docdata_order \<Rightarrow> payment \<Rightarrow> bool \<Rightarrow> docdata_payment \<Rightarrow> pass_state
     \<Rightarrow> py_error + pass_state" where
  "persist_line racing order p added ddpayment st =
     (case save_payment racing added ddpayment st of
        Inr st1 \<Rightarrow> Inr (send_payment_event added order ddpayment st1)
      | Inl e \<Rightarrow>
          if e = IntegrityError then
            (case str_format [0, 1] [p_id p] of
               Inl e2 \<Rightarrow> Inl e2
             | Inr _ \<Rightarrow>
                 (case save_payment racing False ddpayment
                         (st\<lparr>logged := logged st @ [Warn_concurrency_issues (order_key order)]\<rparr>) of
                    Inl e3 \<Rightarrow> Inl e3
                  | Inr st2 \<Rightarrow> Inr (send_payment_event False order ddpayment st2)))
          else Inl e)"

text \<open>
  The body of the loop of \<open>_store_report_lines\<close>, lines 321 to 438, on the
  candidate status, the list \<open>ddpayment_objects\<close> and the state.
\<close>

definition store_report_line ::
  "settings \<Rightarrow> docdata_order \<Rightarrow> report \<Rightarrow> int set \<Rightarrow> payment
     \<Rightarrow> order_status option \<times> docdata_payment list \<times> pass_state
     \<Rightarrow> py_error + (order_status option \<times> docdata_payment list \<times> pass_state)" where
  "store_report_line cfg order rep racing p acc =
     (case acc of (new_status, ddpayment_objects, st) \<Rightarrow>
        (let authorization = p_authorization p;
             auth = auth_status authorization
         in case (if auth = ''AUTHORIZED''
                  then process_authorized_payment cfg order rep p
                  else Inr (None, [])) of
              Inl e \<Rightarrow> Inl e
            | Inr (maybe_new_status, msgs) \<Rightarrow>
                (let new_status = (case maybe_new_status of
                                     None \<Rightarrow> new_status
                                   | Some s \<Rightarrow> Some s);
                     allocated = (if auth = ''AUTHORIZED''
                                  then to_decimal (auth_amount authorization) else 0);
                     (ddpayment0, added) = find_or_new cfg order p st;
                     (ddpayment, updated, msgs2) = update_fields cfg p allocated ddpayment0;
                     st1 = st\<lparr>logged := logged st @ msgs @ msgs2\<rparr>
                 in if added \<or> updated then
                      (case persist_line racing order p added ddpayment st1 of
                         Inl e \<Rightarrow> Inl e
                       | Inr st2 \<Rightarrow> Inr (new_status, ddpayment_objects @ [ddpayment], st2))
                    else Inr (new_status, ddpayment_objects @ [ddpayment], st1))))"

fun store_lines_loop ::
  "settings \<Rightarrow> docdata_order \<Rightarrow> report \<Rightarrow> int set \<Rightarrow> payment list
     \<Rightarrow> order_status option \<times> docdata_payment list \<times> pass_state
     \<Rightarrow> py_error + (order_status option \<times> docdata_payment list \<times> pass_state)" where
  "store_lines_loop cfg order rep racing [] acc = Inr acc"
| "store_lines_loop cfg order rep racing (p # ps) acc =
     (case store_report_line cfg order rep racing p acc of
        Inl e \<Rightarrow> Inl e
      | Inr acc' \<Rightarrow> store_lines_loop cfg order rep racing ps acc')"

subsection \<open>All payment lines of a report\<close>

text \<open>
  Lines 441 to 458: with no candidate status, the mapping of the last line's
  authorization status; \<open>report_payments[-1]\<close> raises an \<open>IndexError\<close> on the
  empty list.
\<close>

definition fallback_status ::
  "settings \<Rightarrow> docdata_order \<Rightarrow> payment list \<Rightarrow> py_error + order_status" where
  "fallback_status cfg order report_payments =
     (if report_payments = [] then Inl IndexError
      else
        (let new_status =
               (case status_mapping cfg (auth_status (p_authorization (last report_payments))) of
                  None \<Rightarrow> STATUS_UNKNOWN
                | Some s \<Rightarrow> s)
         in if status order \<in> {STATUS_EXPIRED, STATUS_CANCELLED}
               \<and> new_status \<in> {STATUS_NEW, STATUS_IN_PROGRESS}
            then Inr (status order)
            else Inr new_status))"

text \<open>Python's \<open>int(d)\<close> of a \<open>Decimal\<close>: rounding towards zero.\<close>

definition py_int :: "rat \<Rightarrow> int" where
  "py_int d = (if d < 0 then \<lceil>d\<rceil> else \<lfloor>d\<rfloor>)"

text \<open>
  \<open>_store_report_lines\<close>. Python's \<open>list.sort\<close> is stable, as \<open>sort_key\<close> is.
\<close>

definition store_report_lines ::
  "settings \<Rightarrow> docdata_order \<Rightarrow> report \<Rightarrow> int set \<Rightarrow> pass_state
     \<Rightarrow> py_error + (order_status \<times> docdata_payment list \<times> pass_state)" where
  "store_report_lines cfg order rep racing st =
     (case r_payment rep of
        None \<Rightarrow> Inl AttributeError
      | Some payments \<Rightarrow>
          (let totals = approximateTotals rep;
               report_payments = sort_key p_id payments
           in case store_lines_loop cfg order rep racing report_payments (None, [], st) of
                Inl e \<Rightarrow> Inl e
              | Inr (candidate, ddpayment_objects, st1) \<Rightarrow>
                  (case (case candidate of
                           None \<Rightarrow> fallback_status cfg order report_payments
                         | Some s \<Rightarrow> Inr s) of
                     Inl e \<Rightarrow> Inl e
                   | Inr new_status \<Rightarrow>
                       (let total_registered = totalRegistered totals;
                            total_gross_cents = py_int (total_gross_amount order * 100);
                            st2 = (if new_status \<noteq> STATUS_CANCELLED
                                      \<and> total_registered \<noteq> total_gross_cents
                                   then st1\<lparr>logged := logged st1
                                          @ [Error_total_mismatch (order_key order)
                                               total_gross_cents total_registered]\<rparr>
                                   else st1)
                        in Inr (new_status, sort_key payment_id ddpayment_objects, st2)))))"

subsection \<open>One reconciliation pass\<close>

text \<open>Lines 225 to 232 of \<open>_store_report\<close>: the totals are stored in the order.\<close>

definition store_totals :: "docdata_order \<Rightarrow> approximate_totals \<Rightarrow> docdata_order" where
  "store_totals order totals =
     order\<lparr>total_registered := of_int (totalRegistered totals) / 100,
           total_shopper_pending := of_int (totalShopperPending totals) / 100,
           total_acquirer_pending := of_int (totalAcquirerPending totals) / 100,
           total_acquirer_approved := of_int (totalAcquirerApproved totals) / 100,
           total_captured := of_int (totalCaptured totals) / 100,
           total_refunded := of_int (totalRefunded totals) / 100,
           total_charged_back := of_int (totalChargedback totals) / 100\<rparr>"

text \<open>
  Lines 270 to 276: the status is assigned, the order saved, and the change
  notified.
\<close>

definition finish_pass ::
  "docdata_order \<Rightarrow> order_status \<Rightarrow> pass_state \<Rightarrow> docdata_order \<times> pass_state" where
  "finish_pass order new_status st =
     (let old_status = status order;
          (status_changed, order1, msgs) = set_status order new_status;
          st1 = st\<lparr>logged := logged st @ msgs, writes := writes st @ [Save_order order1]\<rparr>
      in if status_changed
         then (order1, order_status_changed order1 old_status (status order1) st1)
         else (order1, st1))"

text \<open>
  \<open>_store_report\<close>, on the clock reading \<open>now\<close>, the ids \<open>racing\<close> and the state
  \<open>st\<close>. The result is the order as saved and the state after the pass.
\<close>

definition store_report ::
  "settings \<Rightarrow> int \<Rightarrow> int set \<Rightarrow> docdata_order \<Rightarrow> report \<Rightarrow> order_status option
     \<Rightarrow> pass_state \<Rightarrow> py_error + (docdata_order \<times> pass_state)" where
  "store_report cfg now racing order0 rep indented_status st =
     (let totals = approximateTotals rep;
          order = store_totals order0 totals
      in case r_payment rep of
           Some _ \<Rightarrow>
             (case store_report_lines cfg order rep racing st of
                Inl e \<Rightarrow> Inl e
              | Inr (new_status, ddpayments, st1) \<Rightarrow> Inr (finish_pass order new_status st1))
         | None \<Rightarrow>
             (case no_payment_status now order totals indented_status of
                (new_status, msgs) \<Rightarrow>
                  Inr (finish_pass order new_status (st\<lparr>logged := logged st @ msgs\<rparr>))))"

subsection \<open>Concrete inputs\<close>

text \<open>
  Settings, orders and reports on which the functions are evaluated below. The
  gateway's status constants are given the values of their names.
\<close>

definition example_settings :: settings where
  "example_settings =
     \<lparr>DOCDATA_PAYMENT_SUCCESS_MARGIN = [''EUR'' \<mapsto> 50],
      CLIENT_STATUS_NEW = ''NEW'',
      CLIENT_STATUS_STARTED = ''STARTED'',
      CLIENT_STATUS_REDIRECTED_FOR_AUTHENTICATION = ''REDIRECTED_FOR_AUTHENTICATION'',
      CLIENT_STATUS_AUTHORIZATION_REQUESTED = ''AUTHORIZATION_REQUESTED'',
      CLIENT_STATUS_AUTHORIZED = ''AUTHORIZED'',
      CLIENT_STATUS_PAID = ''PAID'',
      CLIENT_STATUS_CANCELLED = ''CANCELLED'',
      CLIENT_STATUS_CHARGED_BACK = ''CHARGED_BACK'',
      CLIENT_STATUS_CONFIRMED_PAID = ''CONFIRMED_PAID'',
      CLIENT_STATUS_CONFIRMED_CHARGEDBACK = ''CONFIRMED_CHARGEDBACK'',
      CLIENT_STATUS_CLOSED_SUCCESS = ''CLOSED_SUCCESS'',
      CLIENT_STATUS_CLOSED_CANCELLED = ''CLOSED_CANCELLED'',
      DOCUMENTED_STATUS_VALUES = [''NEW'', ''AUTHORIZED'', ''CANCELLED''],
      SEEN_UNDOCUMENTED_STATUS_VALUES = [],
      PAYMENT_DEFAULTS =
        \<lparr>docdata_order_key = [], payment_id = 0, payment_method = [],
         confidence_level = [], amount_allocated = 0, amount_debited = 0,
         amount_refunded = 0, amount_chargeback = 0, dd_status = ''NEW''\<rparr>\<rparr>"

text \<open>An order in euros with the status \<open>s\<close>, created at \<open>t\<close>.\<close>

definition example_order :: "order_status \<Rightarrow> int \<Rightarrow> docdata_order" where
  "example_order s t =
     \<lparr>order_key = ''K'', currency = ''EUR'', total_gross_amount = 10, status = s,
      created = t, total_registered = 0, total_shopper_pending = 0,
      total_acquirer_pending = 0, total_acquirer_approved = 0, total_captured = 0,
      total_refunded = 0, total_charged_back = 0\<rparr>"

definition example_totals :: "int \<Rightarrow> int \<Rightarrow> int \<Rightarrow> int \<Rightarrow> approximate_totals" where
  "example_totals registered captured refunded chargedback =
     \<lparr>totalRegistered = registered, totalShopperPending = 0, totalAcquirerPending = 0,
      totalAcquirerApproved = 0, totalCaptured = captured, totalRefunded = refunded,
      totalChargedback = chargedback, exchangedTo = ''EUR''\<rparr>"

text \<open>
  A payment entry with the id \<open>i\<close>, the authorization status \<open>s\<close> and an
  authorized amount of 1000 in the currency \<open>c\<close>.
\<close>

definition example_line :: "int \<Rightarrow> string \<Rightarrow> string \<Rightarrow> payment" where
  "example_line i s c =
     \<lparr>p_id = i, paymentMethod = ''VISA'',
      p_authorization =
        \<lparr>auth_status = s, auth_amount = \<lparr>amount_value = 1000, amount_currency = c\<rparr>,
         confidenceLevel = ''ACQUIRER_APPROVED'', capture = None, refund = None,
         chargeback = None\<rparr>\<rparr>"

definition example_report :: "approximate_totals \<Rightarrow> payment list option \<Rightarrow> report" where
  "example_report totals ps = \<lparr>approximateTotals = totals, r_payment = ps\<rparr>"

definition empty_state :: pass_state where
  "empty_state = \<lparr>payments_table = Map.empty, events = [], logged = [], writes = []\<rparr>"

subsection \<open>Notions used in the statements\<close>

text \<open>A signal about a payment line, as opposed to the one about the order.\<close>

fun is_payment_event :: "event \<Rightarrow> bool" where
  "is_payment_event (Payment_added k d) = True"
| "is_payment_event (Payment_updated k d) = True"
| "is_payment_event (Order_status_changed k a b) = False"

text \<open>Every stored row is stored under its own payment id.\<close>

definition table_wf :: "(int \<rightharpoonup> docdata_payment) \<Rightarrow> bool" where
  "table_wf t = (\<forall>i d. t i = Some d \<longrightarrow> payment_id d = i)"

text \<open>The amount that line 349 or 351 allocates for a report entry.\<close>

definition line_allocated :: "payment \<Rightarrow> rat" where
  "line_allocated p =
     (if auth_status (p_authorization p) = ''AUTHORIZED''
      then to_decimal (auth_amount (p_authorization p)) else 0)"

text \<open>A stored row holds what the loop body writes for a report entry.\<close>

definition synced :: "payment \<Rightarrow> docdata_payment \<Rightarrow> bool" where
  "synced p d =
     (payment_method d = paymentMethod p
      \<and> confidence_level d = confidenceLevel (p_authorization p)
      \<and> amount_allocated d = line_allocated p
      \<and> amount_debited d = get_payment_sum p ''capture'' ''CAPTURED''
      \<and> amount_refunded d = get_payment_sum p ''refund'' ''CAPTURED''
      \<and> amount_chargeback d = get_payment_sum p ''chargeback'' ''CHARGED''
      \<and> dd_status d = auth_status (p_authorization p))"


text \<open>
  Two passes in a row over the same report: the second works on the order and the
  state that the first has left, at the clock reading \<open>now'\<close>. The result holds
  what each pass returned.
\<close>

definition replay ::
  "settings \<Rightarrow> int \<Rightarrow> int \<Rightarrow> int set \<Rightarrow> docdata_order \<Rightarrow> report \<Rightarrow> order_status option
     \<Rightarrow> pass_state
     \<Rightarrow> py_error + ((docdata_order \<times> pass_state) \<times> (docdata_order \<times> pass_state))" where
  "replay cfg now now' racing order rep indented_status st =
     (case store_report cfg now racing order rep indented_status st of
        Inl e \<Rightarrow> Inl e
      | Inr (order1, st1) \<Rightarrow>
          (case store_report cfg now' racing order1 rep indented_status st1 of
             Inl e \<Rightarrow> Inl e
           | Inr second \<Rightarrow> Inr ((order1, st1), second)))"

section \<open>Properties\<close>

lemmas example_defs = example_settings_def example_order_def example_totals_def
  example_line_def example_report_def empty_state_def

lemmas pass_defs = store_report_def store_report_lines_def store_report_line_def
  find_or_new_def update_fields_def persist_line_def save_payment_def str_format_def
  send_payment_event_def fallback_status_def status_mapping_def status_mapping_items_def
  no_payment_status_def store_totals_def finish_pass_def set_status_def
  order_status_changed_def process_authorized_payment_def payment_margin_def
  authorized_payment_status_def payment_sum_zero_status_def get_payment_sum_def
  authorization_attr_def to_decimal_def py_int_def STATUS_CHOICES_def timedelta_days_def

subsection \<open>The decision for an authorized payment\<close>

lemma payment_margin_returns:
  "r_payment rep = Some ps \<Longrightarrow> \<exists>m. payment_margin cfg order rep = Inr m"
  by (simp add: payment_margin_def Let_def)

lemma example_margin_same_currency:
  "payment_margin example_settings (example_order s t)
     (example_report (example_totals r c f b) (Some [example_line 1 ''AUTHORIZED'' ''EUR'']))
   = Inr 0"
  by (simp add: payment_margin_def example_defs)

lemma example_margin_converted:
  "payment_margin example_settings (example_order s t)
     (example_report (example_totals 1000 c f b) (Some [example_line 1 ''AUTHORIZED'' ''USD'']))
   = Inr 50"
  by (simp add: payment_margin_def example_defs)

text \<open>
  Claim C1. In a pass over a report that has payment entries, the decision for an
  authorized line, with the margin \<open>m\<close> that the function computes: no status when
  Captured is below Registered minus \<open>m\<close>; otherwise, for the payment sum Captured
  minus Chargedback minus Refunded, in the order of the code's tests: \<open>PAID\<close> when
  the sum is at least Registered minus \<open>m\<close>, else \<open>PAID_REFUNDED\<close> when it is
  positive, else \<open>UNKNOWN\<close> when it is negative, and then the function returns with
  an error record in the log instead of raising.
\<close>

theorem authorized_payment_decision:
  assumes "r_payment rep = Some ps"
  shows "\<exists>m. payment_margin cfg order rep = Inr m \<and>
    (let totals = approximateTotals rep;
         payment_sum = totalCaptured totals - totalChargedback totals - totalRefunded totals
     in (totalCaptured totals < totalRegistered totals - m \<longrightarrow>
           process_authorized_payment cfg order rep p = Inr (None, []))
      \<and> (\<not> totalCaptured totals < totalRegistered totals - m
           \<and> payment_sum \<ge> totalRegistered totals - m \<longrightarrow>
           process_authorized_payment cfg order rep p = Inr (Some STATUS_PAID, []))
      \<and> (\<not> totalCaptured totals < totalRegistered totals - m
           \<and> \<not> payment_sum \<ge> totalRegistered totals - m \<and> payment_sum > 0 \<longrightarrow>
           process_authorized_payment cfg order rep p = Inr (Some STATUS_PAID_REFUNDED, []))
      \<and> (\<not> totalCaptured totals < totalRegistered totals - m
           \<and> \<not> payment_sum \<ge> totalRegistered totals - m \<and> payment_sum < 0 \<longrightarrow>
           process_authorized_payment cfg order rep p
             = Inr (Some STATUS_UNKNOWN,
                    [Error_negative_payment_sum (order_key order) payment_sum])))"
proof -
  from assms obtain m where m: "payment_margin cfg order rep = Inr m"
    using payment_margin_returns by blast
  show ?thesis
    using m by (auto simp: process_authorized_payment_def authorized_payment_status_def Let_def)
qed

theorem authorized_payment_decision_witness:
  "process_authorized_payment example_settings (example_order STATUS_NEW 0)
     (example_report (example_totals 1000 400 0 0) (Some [example_line 1 ''AUTHORIZED'' ''EUR'']))
     (example_line 1 ''AUTHORIZED'' ''EUR'') = Inr (None, [])
   \<and> process_authorized_payment example_settings (example_order STATUS_NEW 0)
     (example_report (example_totals 1000 1000 0 0) (Some [example_line 1 ''AUTHORIZED'' ''EUR'']))
     (example_line 1 ''AUTHORIZED'' ''EUR'') = Inr (Some STATUS_PAID, [])
   \<and> process_authorized_payment example_settings (example_order STATUS_NEW 0)
     (example_report (example_totals 1000 1000 200 0) (Some [example_line 1 ''AUTHORIZED'' ''EUR'']))
     (example_line 1 ''AUTHORIZED'' ''EUR'') = Inr (Some STATUS_PAID_REFUNDED, [])
   \<and> process_authorized_payment example_settings (example_order STATUS_NEW 0)
     (example_report (example_totals 1000 1000 300 900) (Some [example_line 1 ''AUTHORIZED'' ''EUR'']))
     (example_line 1 ''AUTHORIZED'' ''EUR'')
       = Inr (Some STATUS_UNKNOWN, [Error_negative_payment_sum ''K'' (- 200)])"
proof -
  let ?l = "example_line 1 ''AUTHORIZED'' ''EUR''"
  let ?o = "example_order STATUS_NEW 0"
  have r: "\<And>tt. r_payment (example_report tt (Some [?l])) = Some [?l]"
    by (simp add: example_report_def)
  have a: "\<And>tt. approximateTotals (example_report tt (Some [?l])) = tt"
    by (simp add: example_report_def)
  have k: "order_key ?o = ''K''" by (simp add: example_order_def)
  note th = authorized_payment_decision [OF r, of example_settings ?o _ ?l]
  show ?thesis
    using th [of "example_totals 1000 400 0 0"] th [of "example_totals 1000 1000 0 0"]
      th [of "example_totals 1000 1000 200 0"] th [of "example_totals 1000 1000 300 900"]
    by (simp add: example_margin_same_currency a k Let_def) (simp add: example_totals_def)
qed

text \<open>
  Claim C6. The margin of a pass is not zero only when the order's currency is the
  totals' exchanged-to currency and some payment line is authorized in another
  currency; it is then the tolerance configured for that currency, and below
  Registered. Whenever the two conditions hold, the margin is that tolerance, or
  zero if the tolerance is Registered or more.
\<close>

theorem payment_margin_rule:
  assumes "r_payment rep = Some ps"
  shows "\<exists>m. payment_margin cfg order rep = Inr m \<and>
    (let totals = approximateTotals rep;
         converted = (currency order = exchangedTo totals
            \<and> (\<exists>p \<in> set ps. amount_currency (auth_amount (p_authorization p)) \<noteq> currency order));
         tolerance = (case DOCDATA_PAYMENT_SUCCESS_MARGIN cfg (exchangedTo totals) of
                        None \<Rightarrow> 0 | Some t \<Rightarrow> t)
     in (m \<noteq> 0 \<longrightarrow> converted \<and> m = tolerance \<and> m < totalRegistered totals)
      \<and> (converted \<longrightarrow> m = (if tolerance \<ge> totalRegistered totals then 0 else tolerance)))"
  using assms by (auto simp: payment_margin_def Let_def list_ex_iff split: option.splits)

theorem payment_margin_rule_witness:
  "payment_margin example_settings (example_order STATUS_NEW 0)
     (example_report (example_totals 1000 960 0 0) (Some [example_line 1 ''AUTHORIZED'' ''USD'']))
     = Inr 50
   \<and> payment_margin example_settings (example_order STATUS_NEW 0)
     (example_report (example_totals 0 0 0 0) (Some [example_line 1 ''AUTHORIZED'' ''USD'']))
     = Inr 0"
proof -
  let ?l = "example_line 1 ''AUTHORIZED'' ''USD''"
  have r: "\<And>tt. r_payment (example_report tt (Some [?l])) = Some [?l]"
    by (simp add: example_report_def)
  note th = payment_margin_rule [OF r, of example_settings "example_order STATUS_NEW 0"]
  show ?thesis
    using th [of "example_totals 1000 960 0 0"] th [of "example_totals 0 0 0 0"]
    by (auto simp: example_defs Let_def)
qed



text \<open>
  The two equalities cannot hold together where the branch is taken: the first test
  of the function leaves Captured at least Registered minus the margin, the branch
  needs a payment sum of zero below that bound, and with both equalities the
  payment sum is minus Captured. For such totals the function never yields
  \<open>REFUNDED\<close> or \<open>CHARGED_BACK\<close>.
\<close>

lemma both_equalities_never_reach_zero_branch:
  assumes "totalCaptured totals = totalChargedback totals"
    and "totalCaptured totals = totalRefunded totals"
  shows "\<not> (\<not> totalCaptured totals < totalRegistered totals - margin
       \<and> \<not> totalCaptured totals - totalChargedback totals - totalRefunded totals
             \<ge> totalRegistered totals - margin
       \<and> totalCaptured totals - totalChargedback totals - totalRefunded totals = 0)"
  using assms by arith

lemma both_equalities_never_refunded:
  assumes "totalCaptured totals = totalChargedback totals"
    and "totalCaptured totals = totalRefunded totals"
  shows "fst (authorized_payment_status order totals margin)
           \<in> {None, Some STATUS_PAID, Some STATUS_PAID_REFUNDED, Some STATUS_UNKNOWN}"
  using assms by (auto simp: authorized_payment_status_def Let_def)




subsection \<open>The structure of a pass\<close>

lemma status_store_totals [simp]: "status (store_totals order totals) = status order"
  by (simp add: store_totals_def)

lemma created_store_totals [simp]: "created (store_totals order totals) = created order"
  by (simp add: store_totals_def)

lemma order_key_store_totals [simp]: "order_key (store_totals order totals) = order_key order"
  by (simp add: store_totals_def)

lemma currency_store_totals [simp]: "currency (store_totals order totals) = currency order"
  by (simp add: store_totals_def)

lemma status_finish_pass:
  "status (fst (finish_pass order new_status st)) =
     (if new_status = status order \<or> new_status \<in> set STATUS_CHOICES then new_status
      else STATUS_UNKNOWN)"
  by (auto simp: finish_pass_def set_status_def Let_def)

lemma store_report_no_payment:
  "r_payment rep = None \<Longrightarrow>
   store_report cfg now racing order rep indented_status st =
     Inr (finish_pass (store_totals order (approximateTotals rep))
            (fst (no_payment_status now (store_totals order (approximateTotals rep))
                    (approximateTotals rep) indented_status))
            (st\<lparr>logged := logged st
                 @ snd (no_payment_status now (store_totals order (approximateTotals rep))
                    (approximateTotals rep) indented_status)\<rparr>))"
  by (simp add: store_report_def Let_def split: prod.splits)

lemma order_key_finish_pass [simp]:
  "order_key (fst (finish_pass order new_status st)) = order_key order"
  by (auto simp: finish_pass_def set_status_def Let_def)

lemma events_finish_pass:
  "events (snd (finish_pass order new_status st)) =
     events st @ (if status (fst (finish_pass order new_status st)) \<noteq> status order
                  then [Order_status_changed (order_key order) (status order)
                          (status (fst (finish_pass order new_status st)))]
                  else [])"
  by (auto simp: finish_pass_def set_status_def order_status_changed_def Let_def)

lemma store_report_line_cases:
  assumes "store_report_line cfg order rep racing p (c, objs, st) = Inr (c', objs', st')"
  obtains m msgs d0 added d updated msgs2 where
    "(if auth_status (p_authorization p) = ''AUTHORIZED''
      then process_authorized_payment cfg order rep p else Inr (None, [])) = Inr (m, msgs)"
    and "find_or_new cfg order p st = (d0, added)"
    and "update_fields cfg p (line_allocated p) d0 = (d, updated, msgs2)"
    and "c' = (case m of None \<Rightarrow> c | Some s \<Rightarrow> Some s)"
    and "objs' = objs @ [d]"
    and "added \<or> updated \<longrightarrow>
           persist_line racing order p added d (st\<lparr>logged := logged st @ msgs @ msgs2\<rparr>) = Inr st'"
    and "\<not> (added \<or> updated) \<longrightarrow> st' = st\<lparr>logged := logged st @ msgs @ msgs2\<rparr>"
proof -
  let ?dec = "if auth_status (p_authorization p) = ''AUTHORIZED''
      then process_authorized_payment cfg order rep p else Inr (None, [])"
  obtain d0 added where f: "find_or_new cfg order p st = (d0, added)"
    by (cases "find_or_new cfg order p st")
  obtain d updated msgs2 where u: "update_fields cfg p (line_allocated p) d0 = (d, updated, msgs2)"
    by (cases "update_fields cfg p (line_allocated p) d0")
  have "\<exists>m msgs. ?dec = Inr (m, msgs)"
  proof (cases ?dec)
    case (Inl e)
    with assms show ?thesis
      unfolding store_report_line_def Let_def by (simp split: if_splits)
  next
    case (Inr r)
    then show ?thesis by (cases r) auto
  qed
  then obtain m msgs where dec: "?dec = Inr (m, msgs)" by blast
  have body: "(if added \<or> updated then
        (case persist_line racing order p added d (st\<lparr>logged := logged st @ msgs @ msgs2\<rparr>) of
           Inl e \<Rightarrow> Inl e
         | Inr st2 \<Rightarrow> Inr (case m of None \<Rightarrow> c | Some s \<Rightarrow> Some s, objs @ [d], st2))
      else Inr (case m of None \<Rightarrow> c | Some s \<Rightarrow> Some s, objs @ [d],
                st\<lparr>logged := logged st @ msgs @ msgs2\<rparr>)) = Inr (c', objs', st')"
    using assms dec f u
    unfolding store_report_line_def Let_def line_allocated_def [symmetric]
    by (simp split: if_splits)
  show thesis
  proof (cases "added \<or> updated")
    case True
    with body have r: "persist_line racing order p added d
          (st\<lparr>logged := logged st @ msgs @ msgs2\<rparr>) = Inr st'"
      and c: "c' = (case m of None \<Rightarrow> c | Some s \<Rightarrow> Some s)" and o: "objs' = objs @ [d]"
      by (simp_all split: sum.splits)
    show thesis
      by (rule that [OF dec f u c o]) (use r True in simp_all)
  next
    case False
    with body have r: "st' = st\<lparr>logged := logged st @ msgs @ msgs2\<rparr>"
      and c: "c' = (case m of None \<Rightarrow> c | Some s \<Rightarrow> Some s)" and o: "objs' = objs @ [d]"
      by simp_all
    show thesis
      by (rule that [OF dec f u c o]) (use r False in simp_all)
  qed
qed

lemma persist_line_events:
  assumes "persist_line racing order p added d st = Inr st'"
  shows "\<exists>e. events st' = events st @ [e] \<and> is_payment_event e"
  using assms
  by (auto simp: persist_line_def save_payment_def send_payment_event_def str_format_def
      split: sum.splits if_splits)

lemma store_report_line_events:
  assumes "store_report_line cfg order rep racing p (c, objs, st) = Inr (c', objs', st')"
  shows "\<exists>es. events st' = events st @ es \<and> list_all is_payment_event es"
  using assms
proof (rule store_report_line_cases)
  fix m msgs d0 added d updated msgs2
  assume p: "added \<or> updated \<longrightarrow>
           persist_line racing order p added d (st\<lparr>logged := logged st @ msgs @ msgs2\<rparr>) = Inr st'"
    and q: "\<not> (added \<or> updated) \<longrightarrow> st' = st\<lparr>logged := logged st @ msgs @ msgs2\<rparr>"
  show ?thesis
  proof (cases "added \<or> updated")
    case True
    from persist_line_events [OF p [rule_format, OF True]] show ?thesis by auto
  next
    case False
    from q [rule_format, OF False] show ?thesis by simp
  qed
qed

lemma store_lines_loop_events:
  assumes "store_lines_loop cfg order rep racing ps (c, objs, st) = Inr (c', objs', st')"
  shows "\<exists>es. events st' = events st @ es \<and> list_all is_payment_event es"
  using assms
proof (induction ps arbitrary: c objs st)
  case Nil
  then show ?case by simp
next
  case (Cons p ps)
  from Cons.prems obtain c1 objs1 st1 where
    1: "store_report_line cfg order rep racing p (c, objs, st) = Inr (c1, objs1, st1)"
    and 2: "store_lines_loop cfg order rep racing ps (c1, objs1, st1) = Inr (c', objs', st')"
    by (auto split: sum.splits)
  from store_report_line_events [OF 1] Cons.IH [OF 2] show ?case by auto
qed

lemma store_report_lines_events:
  assumes "store_report_lines cfg order rep racing st = Inr (new_status, objs, st')"
  shows "\<exists>es. events st' = events st @ es \<and> list_all is_payment_event es"
proof -
  from assms obtain ps c objs1 st1 where
    1: "store_lines_loop cfg order rep racing ps (None, [], st) = Inr (c, objs1, st1)"
    and 2: "events st' = events st1"
    by (auto simp: store_report_lines_def Let_def split: option.splits sum.splits if_splits)
  from store_lines_loop_events [OF 1] 2 show ?thesis by simp
qed

lemma store_report_finish:
  assumes "store_report cfg now racing order rep indented_status st = Inr (order', st')"
  obtains new_status st1 es where
    "(order', st') = finish_pass (store_totals order (approximateTotals rep)) new_status st1"
    and "events st1 = events st @ es" and "list_all is_payment_event es"
proof (cases "r_payment rep")
  case None
  let ?o = "store_totals order (approximateTotals rep)"
  let ?n = "no_payment_status now ?o (approximateTotals rep) indented_status"
  from None assms have "(order', st') = finish_pass ?o (fst ?n) (st\<lparr>logged := logged st @ snd ?n\<rparr>)"
    by (simp add: store_report_def Let_def split: prod.splits)
  moreover have "events (st\<lparr>logged := logged st @ snd ?n\<rparr>) = events st @ []" by simp
  moreover have "list_all is_payment_event []" by simp
  ultimately show ?thesis by (rule that)
next
  case (Some ps)
  with assms obtain new_status objs st1 where
    1: "store_report_lines cfg (store_totals order (approximateTotals rep)) rep racing st
          = Inr (new_status, objs, st1)"
    and 2: "(order', st') = finish_pass (store_totals order (approximateTotals rep)) new_status st1"
    by (auto simp: store_report_def Let_def split: sum.splits)
  from store_report_lines_events [OF 1] 2 that show ?thesis by blast
qed

lemma store_report_events:
  assumes "store_report cfg now racing order rep indented_status st = Inr (order', st')"
  shows "\<exists>es. list_all is_payment_event es \<and>
     events st' = events st @ es
        @ (if status order' \<noteq> status order
           then [Order_status_changed (order_key order) (status order) (status order')]
           else [])"
  using assms
proof (rule store_report_finish)
  fix new_status st1 es
  assume f: "(order', st') = finish_pass (store_totals order (approximateTotals rep)) new_status st1"
    and e: "events st1 = events st @ es" and l: "list_all is_payment_event es"
  from f have o: "order' = fst (finish_pass (store_totals order (approximateTotals rep)) new_status st1)"
    and s: "st' = snd (finish_pass (store_totals order (approximateTotals rep)) new_status st1)"
    by (simp_all add: prod_eq_iff)
  show ?thesis
    using l e unfolding o s events_finish_pass by auto
qed

lemma store_report_status:
  assumes "store_report cfg now racing order rep indented_status st = Inr (order', st')"
  shows "status order' \<in> set STATUS_CHOICES \<or> status order' = status order"
  using assms
proof (rule store_report_finish)
  fix new_status st1 es
  assume f: "(order', st') = finish_pass (store_totals order (approximateTotals rep)) new_status st1"
  from f [symmetric] have o: "order' = fst (finish_pass (store_totals order (approximateTotals rep)) new_status st1)"
    by simp
  show ?thesis unfolding o status_finish_pass by (auto simp: STATUS_CHOICES_def)
qed

subsection \<open>A report without payments\<close>

text \<open>
  Claim C5. For a report without payment entries whose six totals are all zero: the
  status computed is \<open>CANCELLED\<close> for a cancelled order; else, when the order is
  more than 21 days old, the intended status if one is given (a value that Python
  takes for true) and \<open>EXPIRED\<close> otherwise; else the intended status or \<open>NEW\<close>.
  The pass returns, and the order carries that status, or \<open>UNKNOWN\<close> if the
  status is a new value outside the recognised ones. In particular an order created
  22 days ago that is not cancelled ends \<open>EXPIRED\<close> when no intended status is
  given.
\<close>

theorem no_payment_all_zero_status:
  assumes "r_payment rep = None"
    and "totalShopperPending (approximateTotals rep) = 0"
    and "totalAcquirerPending (approximateTotals rep) = 0"
    and "totalAcquirerApproved (approximateTotals rep) = 0"
    and "totalCaptured (approximateTotals rep) = 0"
    and "totalRefunded (approximateTotals rep) = 0"
    and "totalChargedback (approximateTotals rep) = 0"
  shows "\<exists>order' st'.
     store_report cfg now racing order rep indented_status st = Inr (order', st')
     \<and> (let new_status =
               (if status order = STATUS_CANCELLED then STATUS_CANCELLED
                else if now - created order > timedelta_days 21
                     then (case indented_status of
                             None \<Rightarrow> STATUS_EXPIRED
                           | Some s \<Rightarrow> if s = STATUS_OTHER [] then STATUS_EXPIRED else s)
                     else (case indented_status of
                             None \<Rightarrow> STATUS_NEW
                           | Some s \<Rightarrow> if s = STATUS_OTHER [] then STATUS_NEW else s))
         in fst (no_payment_status now (store_totals order (approximateTotals rep))
                   (approximateTotals rep) indented_status) = new_status
            \<and> status order' =
                 (if new_status = status order \<or> new_status \<in> set STATUS_CHOICES
                  then new_status else STATUS_UNKNOWN))
     \<and> (created order = now - timedelta_days 22 \<and> status order \<noteq> STATUS_CANCELLED
          \<and> indented_status = None \<longrightarrow> status order' = STATUS_EXPIRED)"
proof -
  have so: "\<And>d. status_or indented_status d =
      (case indented_status of None \<Rightarrow> d | Some s \<Rightarrow> if s = STATUS_OTHER [] then d else s)"
    by (cases "(indented_status, undefined :: order_status)" rule: status_or.cases) auto
  let ?o = "store_totals order (approximateTotals rep)"
  let ?n = "no_payment_status now ?o (approximateTotals rep) indented_status"
  let ?f = "finish_pass ?o (fst ?n) (st\<lparr>logged := logged st @ snd ?n\<rparr>)"
  define new_status where "new_status =
               (if status order = STATUS_CANCELLED then STATUS_CANCELLED
                else if now - created order > timedelta_days 21
                     then (case indented_status of
                             None \<Rightarrow> STATUS_EXPIRED
                           | Some s \<Rightarrow> if s = STATUS_OTHER [] then STATUS_EXPIRED else s)
                     else (case indented_status of
                             None \<Rightarrow> STATUS_NEW
                           | Some s \<Rightarrow> if s = STATUS_OTHER [] then STATUS_NEW else s))"
  have n: "fst ?n = new_status"
    using assms unfolding new_status_def so [symmetric]
    by (auto simp: no_payment_status_def)
  have run: "store_report cfg now racing order rep indented_status st = Inr (fst ?f, snd ?f)"
    by (simp add: store_report_no_payment [OF assms(1)])
  have st: "status (fst ?f) =
      (if new_status = status order \<or> new_status \<in> set STATUS_CHOICES
       then new_status else STATUS_UNKNOWN)"
    by (simp only: status_finish_pass n status_store_totals)
  have old: "status (fst ?f) = STATUS_EXPIRED"
    if "created order = now - timedelta_days 22" "status order \<noteq> STATUS_CANCELLED"
      "indented_status = None"
  proof -
    from that have "new_status = STATUS_EXPIRED"
      by (simp add: new_status_def timedelta_days_def)
    then show ?thesis by (simp add: st STATUS_CHOICES_def)
  qed
  show ?thesis
    using run n st old unfolding new_status_def Let_def by blast
qed

theorem no_payment_all_zero_status_witness:
  "\<exists>order' st'.
     store_report example_settings (timedelta_days 22) {} (example_order STATUS_NEW 0)
       (example_report (example_totals 1000 0 0 0) None) None empty_state = Inr (order', st')
     \<and> status order' = STATUS_EXPIRED"
proof -
  let ?r = "example_report (example_totals 1000 0 0 0) None"
  have h: "r_payment ?r = None" "totalShopperPending (approximateTotals ?r) = 0"
    "totalAcquirerPending (approximateTotals ?r) = 0"
    "totalAcquirerApproved (approximateTotals ?r) = 0"
    "totalCaptured (approximateTotals ?r) = 0" "totalRefunded (approximateTotals ?r) = 0"
    "totalChargedback (approximateTotals ?r) = 0"
    by (simp_all add: example_defs)
  have o: "created (example_order STATUS_NEW 0) = timedelta_days 22 - timedelta_days 22"
    "status (example_order STATUS_NEW 0) \<noteq> STATUS_CANCELLED"
    by (simp_all add: example_defs)
  from no_payment_all_zero_status [OF h, of example_settings "timedelta_days 22" "{}"
      "example_order STATUS_NEW 0" None empty_state] o
  show ?thesis by blast
qed

subsection \<open>The status assignment\<close>

text \<open>
  Claim C9. A computed status that is not recognised and differs from the current
  one is replaced by \<open>UNKNOWN\<close>, with a warning in the log, and nothing is raised;
  an assignment of the current status changes nothing and the end of the pass then
  sends no signal. An order whose status was recognised has a recognised status
  after \<open>_set_status\<close> and after every pass that returns, and the signals of a pass
  are signals about payment lines followed by one order-status-changed signal
  exactly when the status of the order differs from the one before the pass.
\<close>

theorem status_assignment:
  "(new_status \<notin> set STATUS_CHOICES \<and> new_status \<noteq> status order \<longrightarrow>
      set_status order new_status
        = (True, order\<lparr>status := STATUS_UNKNOWN\<rparr>,
           [Warning_status_unknown (order_key order) (status order)]))
   \<and> (new_status = status order \<longrightarrow>
        set_status order new_status = (False, order, [])
        \<and> finish_pass order new_status st = (order, st\<lparr>writes := writes st @ [Save_order order]\<rparr>))
   \<and> (status order \<in> set STATUS_CHOICES \<longrightarrow>
        status (fst (snd (set_status order new_status))) \<in> set STATUS_CHOICES)
   \<and> (\<forall>order' st'.
        store_report cfg now racing order rep indented_status st = Inr (order', st') \<longrightarrow>
          (status order \<in> set STATUS_CHOICES \<longrightarrow> status order' \<in> set STATUS_CHOICES)
          \<and> (\<exists>es. list_all is_payment_event es \<and>
                events st' = events st @ es
                  @ (if status order' \<noteq> status order
                     then [Order_status_changed (order_key order) (status order) (status order')]
                     else [])))"
proof -
  have 1: "new_status \<notin> set STATUS_CHOICES \<and> new_status \<noteq> status order \<longrightarrow>
      set_status order new_status
        = (True, order\<lparr>status := STATUS_UNKNOWN\<rparr>,
           [Warning_status_unknown (order_key order) (status order)])"
    by (auto simp: set_status_def Let_def)
  have 2: "new_status = status order \<longrightarrow>
        set_status order new_status = (False, order, [])
        \<and> finish_pass order new_status st = (order, st\<lparr>writes := writes st @ [Save_order order]\<rparr>)"
    by (simp add: set_status_def finish_pass_def Let_def)
  have 3: "status order \<in> set STATUS_CHOICES \<longrightarrow>
        status (fst (snd (set_status order new_status))) \<in> set STATUS_CHOICES"
    by (auto simp: set_status_def Let_def STATUS_CHOICES_def)
  have 4: "\<forall>order' st'.
        store_report cfg now racing order rep indented_status st = Inr (order', st') \<longrightarrow>
          (status order \<in> set STATUS_CHOICES \<longrightarrow> status order' \<in> set STATUS_CHOICES)
          \<and> (\<exists>es. list_all is_payment_event es \<and>
                events st' = events st @ es
                  @ (if status order' \<noteq> status order
                     then [Order_status_changed (order_key order) (status order) (status order')]
                     else []))"
  proof (intro allI impI)
    fix order' st'
    assume a: "store_report cfg now racing order rep indented_status st = Inr (order', st')"
    from store_report_status [OF a]
    have "status order \<in> set STATUS_CHOICES \<longrightarrow> status order' \<in> set STATUS_CHOICES"
      by auto
    with store_report_events [OF a]
    show "(status order \<in> set STATUS_CHOICES \<longrightarrow> status order' \<in> set STATUS_CHOICES)
          \<and> (\<exists>es. list_all is_payment_event es \<and>
                events st' = events st @ es
                  @ (if status order' \<noteq> status order
                     then [Order_status_changed (order_key order) (status order) (status order')]
                     else []))"
      by (rule conjI [rotated])
  qed
  show ?thesis by (rule conjI [OF 1 conjI [OF 2 conjI [OF 3 4]]])
qed

theorem status_assignment_witness:
  "set_status (example_order STATUS_NEW 0) (STATUS_OTHER ''bogus'')
     = (True, (example_order STATUS_NEW 0)\<lparr>status := STATUS_UNKNOWN\<rparr>,
        [Warning_status_unknown ''K'' STATUS_NEW])
   \<and> set_status (example_order STATUS_NEW 0) STATUS_NEW = (False, example_order STATUS_NEW 0, [])
   \<and> status (fst (snd (set_status (example_order STATUS_NEW 0) (STATUS_OTHER ''bogus''))))
        \<in> set STATUS_CHOICES
   \<and> (\<exists>order' st'.
        store_report example_settings 0 {} (example_order STATUS_NEW 0)
          (example_report (example_totals 1000 0 0 0) None) (Some (STATUS_OTHER ''bogus''))
          empty_state = Inr (order', st')
        \<and> status order' = STATUS_UNKNOWN
        \<and> events st' = [Order_status_changed ''K'' STATUS_NEW STATUS_UNKNOWN])"
proof -
  let ?o = "example_order STATUS_NEW 0"
  let ?b = "STATUS_OTHER ''bogus''"
  let ?run = "store_report example_settings 0 {} ?o
          (example_report (example_totals 1000 0 0 0) None) (Some ?b) empty_state"
  have a: "?b \<notin> set STATUS_CHOICES" "?b \<noteq> status ?o" "STATUS_NEW = status ?o"
    "status ?o \<in> set STATUS_CHOICES" "order_key ?o = ''K''" "status ?o = STATUS_NEW"
    by (simp_all add: example_defs STATUS_CHOICES_def)
  obtain order' st' where run: "?run = Inr (order', st')"
    and s: "status order' = STATUS_UNKNOWN"
    and e: "events st' = [Order_status_changed ''K'' STATUS_NEW STATUS_UNKNOWN]"
    by (simp add: example_defs store_report_def no_payment_status_def store_totals_def
        finish_pass_def set_status_def order_status_changed_def STATUS_CHOICES_def
        timedelta_days_def Let_def)
  note th = status_assignment [of _ ?o empty_state example_settings 0 "{}"
      "example_report (example_totals 1000 0 0 0) None" "Some ?b"]
  from th [of ?b] a have 1: "set_status ?o ?b
     = (True, ?o\<lparr>status := STATUS_UNKNOWN\<rparr>, [Warning_status_unknown ''K'' STATUS_NEW])"
    and 3: "status (fst (snd (set_status ?o ?b))) \<in> set STATUS_CHOICES"
    by (simp_all add: STATUS_CHOICES_def)
  from th [of STATUS_NEW] a have 2: "set_status ?o STATUS_NEW = (False, ?o, [])"
    by simp
  from th [of ?b] run have "\<exists>es. list_all is_payment_event es \<and>
       events st' = events empty_state @ es
         @ (if status order' \<noteq> status ?o
            then [Order_status_changed (order_key ?o) (status ?o) (status order')] else [])"
    by blast
  then show ?thesis using 1 2 3 run s e by blast
qed

subsection \<open>A report with an empty list of payments\<close>

text \<open>
  Claim C10. When the report has the attribute \<open>payment\<close> with no entry, the pass
  does not use the heuristics for a report without payments: the loop runs zero
  times and leaves no candidate status, the fallback reads the last element of the
  empty sorted list, and the pass raises an \<open>IndexError\<close> instead of assigning a
  status.
\<close>

theorem empty_payment_list_raises:
  assumes "r_payment rep = Some []"
  shows "store_lines_loop cfg order rep racing (sort_key p_id []) (None, [], st)
           = Inr (None, [], st)
     \<and> fallback_status cfg order (sort_key p_id []) = Inl IndexError
     \<and> store_report_lines cfg order rep racing st = Inl IndexError
     \<and> store_report cfg now racing order rep indented_status st = Inl IndexError"
  using assms
  by (simp add: store_report_def store_report_lines_def fallback_status_def Let_def)

theorem empty_payment_list_raises_witness:
  "store_report example_settings 0 {} (example_order STATUS_NEW 0)
     (example_report (example_totals 1000 0 0 0) (Some [])) None empty_state = Inl IndexError"
proof -
  have "r_payment (example_report (example_totals 1000 0 0 0) (Some [])) = Some []"
    by (simp add: example_report_def)
  from empty_payment_list_raises [OF this] show ?thesis by blast
qed

subsection \<open>A concurrent insert of the same payment id\<close>

text \<open>
  An insert that meets a row inserted by a concurrent pass raises the
  \<open>IntegrityError\<close>, and the handler raises an \<open>IndexError\<close> from the format of
  its warning before it saves again: the template names two positions and the
  call gives one argument.
\<close>

lemma persist_line_racing_insert:
  "payment_id d \<in> racing \<Longrightarrow> persist_line racing order p True d st = Inl IndexError"
  by (simp add: persist_line_def save_payment_def str_format_def)

text \<open>
  Claim C3, evaluated where it fails: a pass over a report with the one new payment
  1, which a concurrent pass inserts after the lookup, ends with an \<open>IndexError\<close>;
  no row is updated and no signal is sent.
\<close>

theorem concurrent_insert_raises_index_error:
  "store_report example_settings 0 {1} (example_order STATUS_NEW 0)
     (example_report (example_totals 1000 0 0 0) (Some [example_line 1 ''NEW'' ''EUR'']))
     None empty_state = Inl IndexError"
  by (simp add: example_defs store_report_def store_report_lines_def store_report_line_def
      find_or_new_def update_fields_def persist_line_def save_payment_def str_format_def Let_def)

subsection \<open>Orders that are cancelled or expired\<close>














subsection \<open>The same report a second time\<close>

text \<open>
  A line whose stored row already holds what the loop body would write changes
  nothing; after a line is processed its row is in that state, and a line touches
  no row but its own.
\<close>

lemma update_fields_synced:
  assumes "update_fields cfg p (line_allocated p) d0 = (d, u, msgs)"
  shows "synced p d" and "payment_id d = payment_id d0"
  using assms by (auto simp: update_fields_def synced_def Let_def split: if_splits)

lemma update_fields_noop:
  assumes "synced p d0"
  shows "update_fields cfg p (line_allocated p) d0 = (d0, False, [])"
  using assms by (simp add: update_fields_def synced_def Let_def)

lemma update_fields_not_updated:
  assumes "update_fields cfg p a d0 = (d, False, msgs)"
  shows "d = d0"
  using assms by (auto simp: update_fields_def Let_def split: if_splits)

lemma find_or_new_found:
  "payments_table st (p_id p) = Some d \<Longrightarrow> find_or_new cfg order p st = (d, False)"
  by (simp add: find_or_new_def)

lemma find_or_new_id:
  assumes "find_or_new cfg order p st = (d0, added)" and "table_wf (payments_table st)"
  shows "payment_id d0 = p_id p" and "\<not> added \<Longrightarrow> payments_table st (p_id p) = Some d0"
  using assms by (auto simp: find_or_new_def table_wf_def split: option.splits)

lemma persist_line_table:
  assumes "persist_line racing order p added d st = Inr st'"
  shows "payments_table st' = (payments_table st)(payment_id d \<mapsto> d)"
  using assms
  by (auto simp: persist_line_def save_payment_def send_payment_event_def str_format_def
      split: sum.splits if_splits)

lemma store_report_line_table:
  assumes run: "store_report_line cfg order rep racing p (c, objs, st) = Inr (c', objs', st')"
    and wf: "table_wf (payments_table st)"
  shows "\<exists>d. payments_table st' (p_id p) = Some d \<and> synced p d"
    and "\<And>j. j \<noteq> p_id p \<Longrightarrow> payments_table st' j = payments_table st j"
    and "table_wf (payments_table st')"
proof -
  from run obtain m msgs d0 added d updated msgs2 where
    dec: "(if auth_status (p_authorization p) = ''AUTHORIZED''
      then process_authorized_payment cfg order rep p else Inr (None, [])) = Inr (m, msgs)"
    and f: "find_or_new cfg order p st = (d0, added)"
    and u: "update_fields cfg p (line_allocated p) d0 = (d, updated, msgs2)"
    and c': "c' = (case m of None \<Rightarrow> c | Some s \<Rightarrow> Some s)"
    and o': "objs' = objs @ [d]"
    and s: "added \<or> updated \<longrightarrow>
           persist_line racing order p added d (st\<lparr>logged := logged st @ msgs @ msgs2\<rparr>) = Inr st'"
    and n: "\<not> (added \<or> updated) \<longrightarrow> st' = st\<lparr>logged := logged st @ msgs @ msgs2\<rparr>"
    by (rule store_report_line_cases)
  have id: "payment_id d = p_id p"
    using update_fields_synced(2) [OF u] find_or_new_id(1) [OF f wf] by simp
  have sy: "synced p d" by (rule update_fields_synced(1) [OF u])
  have t: "payments_table st' = (payments_table st)(p_id p \<mapsto> d)"
  proof (cases "added \<or> updated")
    case True
    from persist_line_table [OF s [rule_format, OF True]] id show ?thesis by simp
  next
    case False
    then have "updated = False" by simp
    with u have "d = d0" by (simp add: update_fields_not_updated)
    moreover from False have "payments_table st (p_id p) = Some d0"
      using find_or_new_id(2) [OF f wf] by simp
    ultimately show ?thesis using n [rule_format, OF False] by (simp add: map_upd_triv)
  qed
  show "\<exists>d. payments_table st' (p_id p) = Some d \<and> synced p d"
    using t sy by simp
  show "\<And>j. j \<noteq> p_id p \<Longrightarrow> payments_table st' j = payments_table st j"
    using t by simp
  show "table_wf (payments_table st')"
    using wf id unfolding t table_wf_def by auto
qed

lemma store_lines_loop_table:
  assumes "store_lines_loop cfg order rep racing ps (c, objs, st) = Inr (c', objs', st')"
    and "table_wf (payments_table st)" and "distinct (map p_id ps)"
  shows "(\<forall>p \<in> set ps. \<exists>d. payments_table st' (p_id p) = Some d \<and> synced p d)
     \<and> (\<forall>j. j \<notin> p_id ` set ps \<longrightarrow> payments_table st' j = payments_table st j)
     \<and> table_wf (payments_table st')"
  using assms
proof (induction ps arbitrary: c objs st)
  case Nil
  then show ?case by simp
next
  case (Cons p ps)
  from Cons.prems(1) obtain c1 objs1 st1 where
    1: "store_report_line cfg order rep racing p (c, objs, st) = Inr (c1, objs1, st1)"
    and 2: "store_lines_loop cfg order rep racing ps (c1, objs1, st1) = Inr (c', objs', st')"
    by (auto split: sum.splits)
  note l = store_report_line_table [OF 1 Cons.prems(2)]
  from Cons.prems(3) have d: "distinct (map p_id ps)" and np: "p_id p \<notin> p_id ` set ps"
    by auto
  note ih = Cons.IH [OF 2 l(3) d]
  from ih np have "payments_table st' (p_id p) = payments_table st1 (p_id p)" by blast
  with l(1) have a: "\<exists>d. payments_table st' (p_id p) = Some d \<and> synced p d" by simp
  have b: "\<forall>j. j \<notin> p_id ` set (p # ps) \<longrightarrow> payments_table st' j = payments_table st j"
    using ih l(2) by auto
  from a b ih show ?case by simp
qed

lemma store_report_line_replay:
  assumes t: "payments_table st (p_id p) = Some d" and sy: "synced p d"
    and dec: "(if auth_status (p_authorization p) = ''AUTHORIZED''
      then process_authorized_payment cfg order rep p else Inr (None, [])) = Inr (m, msgs)"
  shows "store_report_line cfg order rep racing p (c, objs, st)
    = Inr (case m of None \<Rightarrow> c | Some s \<Rightarrow> Some s, objs @ [d], st\<lparr>logged := logged st @ msgs\<rparr>)"
  using dec
  unfolding store_report_line_def Let_def line_allocated_def [symmetric]
  by (simp add: find_or_new_found [OF t] update_fields_noop [OF sy] split: if_splits)

lemma store_lines_loop_replay:
  assumes "store_lines_loop cfg order rep racing ps (c, objs, st) = Inr (c', objs', st')"
    and "\<forall>p \<in> set ps. \<exists>d. payments_table st2 (p_id p) = Some d \<and> synced p d"
  shows "\<exists>objs2' lg. store_lines_loop cfg order rep racing2 ps (c, objs2, st2)
           = Inr (c', objs2', st2\<lparr>logged := lg\<rparr>)"
  using assms
proof (induction ps arbitrary: c objs st objs2 st2)
  case Nil
  have "st2 = st2\<lparr>logged := logged st2\<rparr>" by simp
  with Nil show ?case by (metis store_lines_loop.simps(1) Inr_inject prod.inject)
next
  case (Cons p ps)
  from Cons.prems(1) obtain c1 objs1 st1 where
    1: "store_report_line cfg order rep racing p (c, objs, st) = Inr (c1, objs1, st1)"
    and 2: "store_lines_loop cfg order rep racing ps (c1, objs1, st1) = Inr (c', objs', st')"
    by (auto split: sum.splits)
  from 1 obtain m msgs d0 added d1 updated msgs2 where
    dec: "(if auth_status (p_authorization p) = ''AUTHORIZED''
      then process_authorized_payment cfg order rep p else Inr (None, [])) = Inr (m, msgs)"
    and "find_or_new cfg order p st = (d0, added)"
    and "update_fields cfg p (line_allocated p) d0 = (d1, updated, msgs2)"
    and c1: "c1 = (case m of None \<Rightarrow> c | Some s \<Rightarrow> Some s)"
    and "objs1 = objs @ [d1]"
    and "added \<or> updated \<longrightarrow>
           persist_line racing order p added d1 (st\<lparr>logged := logged st @ msgs @ msgs2\<rparr>) = Inr st1"
    and "\<not> (added \<or> updated) \<longrightarrow> st1 = st\<lparr>logged := logged st @ msgs @ msgs2\<rparr>"
    by (rule store_report_line_cases)
  from Cons.prems(2) obtain d where t: "payments_table st2 (p_id p) = Some d" and sy: "synced p d"
    by auto
  let ?st = "st2\<lparr>logged := logged st2 @ msgs\<rparr>"
  have r: "store_report_line cfg order rep racing2 p (c, objs2, st2)
             = Inr (c1, objs2 @ [d], ?st)"
    unfolding c1 by (rule store_report_line_replay [OF t sy dec])
  have "\<forall>p \<in> set ps. \<exists>d. payments_table ?st (p_id p) = Some d \<and> synced p d"
    using Cons.prems(2) by simp
  from Cons.IH [OF 2 this, of "objs2 @ [d]"] obtain objs2' lg where
    "store_lines_loop cfg order rep racing2 ps (c1, objs2 @ [d], ?st)
       = Inr (c', objs2', ?st\<lparr>logged := lg\<rparr>)" by blast
  with r show ?case by auto
qed

lemma payment_margin_status_irrelevant [simp]:
  "payment_margin cfg (order\<lparr>status := s\<rparr>) rep = payment_margin cfg order rep"
  by (simp add: payment_margin_def Let_def split: option.splits)

lemma authorized_payment_status_status_irrelevant [simp]:
  "authorized_payment_status (order\<lparr>status := s\<rparr>) totals margin
     = authorized_payment_status order totals margin"
  by (simp add: authorized_payment_status_def Let_def)

lemma process_authorized_payment_status_irrelevant [simp]:
  "process_authorized_payment cfg (order\<lparr>status := s\<rparr>) rep p
     = process_authorized_payment cfg order rep p"
  by (simp add: process_authorized_payment_def cong: sum.case_cong)

lemma find_or_new_status_irrelevant [simp]:
  "find_or_new cfg (order\<lparr>status := s\<rparr>) p st = find_or_new cfg order p st"
  by (simp add: find_or_new_def cong: option.case_cong)

lemma send_payment_event_status_irrelevant [simp]:
  "send_payment_event added (order\<lparr>status := s\<rparr>) d st = send_payment_event added order d st"
  by (simp add: send_payment_event_def)

lemma persist_line_status_irrelevant [simp]:
  "persist_line racing (order\<lparr>status := s\<rparr>) p added d st
     = persist_line racing order p added d st"
  by (simp add: persist_line_def cong: sum.case_cong if_cong)

lemma store_report_line_status_irrelevant [simp]:
  "store_report_line cfg (order\<lparr>status := s\<rparr>) rep racing p acc
     = store_report_line cfg order rep racing p acc"
  by (simp add: store_report_line_def cong: sum.case_cong if_cong prod.case_cong)

lemma store_lines_loop_status_irrelevant [simp]:
  "store_lines_loop cfg (order\<lparr>status := s\<rparr>) rep racing ps acc
     = store_lines_loop cfg order rep racing ps acc"
  by (induction ps arbitrary: acc) (simp_all split: sum.splits)

lemma store_totals_status:
  "store_totals (order\<lparr>status := s\<rparr>) totals = (store_totals order totals)\<lparr>status := s\<rparr>"
  by (simp add: store_totals_def)

lemma store_totals_twice [simp]:
  "store_totals (store_totals order totals) totals = store_totals order totals"
  by (simp add: store_totals_def)

lemma finish_pass_order:
  "fst (finish_pass order new_status st) =
     order\<lparr>status := status (fst (finish_pass order new_status st))\<rparr>"
  by (auto simp: finish_pass_def set_status_def Let_def)

lemma finish_pass_state:
  "payments_table (snd (finish_pass order new_status st)) = payments_table st"
  "writes (snd (finish_pass order new_status st))
     = writes st @ [Save_order (fst (finish_pass order new_status st))]"
  by (auto simp: finish_pass_def set_status_def order_status_changed_def Let_def)

lemma finish_pass_replay:
  assumes "s1 = status (fst (finish_pass order new1 st))"
    and "new2 = new1 \<or> new2 = s1"
  shows "\<exists>lg. finish_pass (order\<lparr>status := s1\<rparr>) new2 st2
     = (order\<lparr>status := s1\<rparr>,
        st2\<lparr>logged := lg, writes := writes st2 @ [Save_order (order\<lparr>status := s1\<rparr>)]\<rparr>)"
proof (cases "new2 = s1")
  case True
  then have "finish_pass (order\<lparr>status := s1\<rparr>) new2 st2
     = (order\<lparr>status := s1\<rparr>,
        st2\<lparr>logged := logged st2,
            writes := writes st2 @ [Save_order (order\<lparr>status := s1\<rparr>)]\<rparr>)"
    by (simp add: finish_pass_def set_status_def Let_def)
  then show ?thesis by (rule exI)
next
  case False
  with assms have n: "new2 = new1" and u: "s1 = STATUS_UNKNOWN"
    and r: "new1 \<notin> set STATUS_CHOICES"
    by (auto simp: status_finish_pass split: if_splits)
  from False have "finish_pass (order\<lparr>status := s1\<rparr>) new2 st2
     = (order\<lparr>status := s1\<rparr>,
        st2\<lparr>logged := logged st2 @ [Warning_status_unknown (order_key order) STATUS_UNKNOWN],
            writes := writes st2 @ [Save_order (order\<lparr>status := s1\<rparr>)]\<rparr>)"
    unfolding n u
    by (simp add: finish_pass_def set_status_def order_status_changed_def Let_def r)
  then show ?thesis by (rule exI)
qed

lemma fallback_status_replay:
  assumes "fallback_status cfg order ps = Inr new1"
    and "s1 = (if new1 = status order \<or> new1 \<in> set STATUS_CHOICES then new1 else STATUS_UNKNOWN)"
  shows "\<exists>new2. fallback_status cfg (order\<lparr>status := s1\<rparr>) ps = Inr new2
           \<and> (new2 = new1 \<or> new2 = s1)"
  using assms
  by (auto simp: fallback_status_def Let_def STATUS_CHOICES_def split: if_splits option.splits)

lemma no_payment_status_replay:
  assumes "new1 = fst (no_payment_status now order totals indented_status)"
    and "s1 = (if new1 = status order \<or> new1 \<in> set STATUS_CHOICES then new1 else STATUS_UNKNOWN)"
    and "(created order < now' - timedelta_days 21) = (created order < now - timedelta_days 21)"
  shows "fst (no_payment_status now' (order\<lparr>status := s1\<rparr>) totals indented_status) = new1
       \<or> fst (no_payment_status now' (order\<lparr>status := s1\<rparr>) totals indented_status) = s1"
  using assms
  by (auto simp: no_payment_status_def STATUS_CHOICES_def split: if_splits)

lemma distinct_ids_sort_key:
  "distinct (map p_id ps) \<Longrightarrow> distinct (map p_id (sort_key p_id ps))"
  by (metis distinct_map distinct_sort set_sort inj_on_def distinct_map mset_sort mset_eq_imp_distinct_iff mset_map)

lemma store_report_lines_replay:
  assumes run: "store_report_lines cfg order rep racing st = Inr (new1, objs, stL)"
    and wf: "table_wf (payments_table st)"
    and ps: "r_payment rep = Some ps" and di: "distinct (map p_id ps)"
    and s1: "s1 = (if new1 = status order \<or> new1 \<in> set STATUS_CHOICES
                   then new1 else STATUS_UNKNOWN)"
    and tab: "payments_table st2 = payments_table stL"
  shows "\<exists>new2 objs2 lg.
     store_report_lines cfg (order\<lparr>status := s1\<rparr>) rep racing2 st2
       = Inr (new2, objs2, st2\<lparr>logged := lg\<rparr>)
     \<and> (new2 = new1 \<or> new2 = s1)"
proof -
  let ?sp = "sort_key p_id ps"
  let ?res = "\<lambda>order c. case c of None \<Rightarrow> fallback_status cfg order ?sp | Some s \<Rightarrow> Inr s"
  from run ps obtain c objsL stL0 where
    loop: "store_lines_loop cfg order rep racing ?sp (None, [], st) = Inr (c, objsL, stL0)"
    and res: "?res order c = Inr new1"
    and tabL: "payments_table stL = payments_table stL0"
    by (auto simp: store_report_lines_def Let_def split: sum.splits if_splits)
  from store_lines_loop_table [OF loop wf distinct_ids_sort_key [OF di]]
  have sy: "\<forall>p \<in> set ?sp. \<exists>d. payments_table st2 (p_id p) = Some d \<and> synced p d"
    by (simp add: tab tabL)
  from store_lines_loop_replay [OF loop sy, of racing2 "[]"] obtain objs2' lg where
    loop2: "store_lines_loop cfg order rep racing2 ?sp (None, [], st2)
              = Inr (c, objs2', st2\<lparr>logged := lg\<rparr>)"
    by (elim exE)
  have "\<exists>new2. ?res (order\<lparr>status := s1\<rparr>) c = Inr new2 \<and> (new2 = new1 \<or> new2 = s1)"
  proof (cases c)
    case None
    with res have "fallback_status cfg order ?sp = Inr new1" by simp
    from fallback_status_replay [OF this s1] None show ?thesis by simp
  next
    case (Some s)
    with res show ?thesis by simp
  qed
  then obtain new2 where res2: "?res (order\<lparr>status := s1\<rparr>) c = Inr new2"
    and n2: "new2 = new1 \<or> new2 = s1" by blast
  let ?cents = "py_int (total_gross_amount order * 100)"
  let ?lg = "if new2 \<noteq> STATUS_CANCELLED \<and> totalRegistered (approximateTotals rep) \<noteq> ?cents
             then lg @ [Error_total_mismatch (order_key order) ?cents
                          (totalRegistered (approximateTotals rep))]
             else lg"
  have "store_report_lines cfg (order\<lparr>status := s1\<rparr>) rep racing2 st2
       = Inr (new2, sort_key payment_id objs2', st2\<lparr>logged := ?lg\<rparr>)"
    unfolding store_report_lines_def Let_def
    by (simp add: ps loop2 res2)
  with n2 show ?thesis by blast
qed

lemma replay_finish:
  assumes f: "(order1, st1) = finish_pass order new1 stL"
    and r2: "store_report cfg now' racing' (order\<lparr>status := status order1\<rparr>) rep
               indented_status st1
           = Inr (finish_pass (order\<lparr>status := status order1\<rparr>) new2 (st1\<lparr>logged := lg\<rparr>))"
    and n2: "new2 = new1 \<or> new2 = status order1"
  shows "\<exists>st2. store_report cfg now' racing' order1 rep indented_status st1 = Inr (order1, st2)
      \<and> payments_table st2 = payments_table st1
      \<and> events st2 = events st1
      \<and> writes st2 = writes st1 @ [Save_order order1]"
proof -
  from f have o1: "order1 = fst (finish_pass order new1 stL)" by (simp add: prod_eq_iff)
  have eq: "order\<lparr>status := status order1\<rparr> = order1"
    using finish_pass_order [of order new1 stL] unfolding o1 [symmetric] by simp
  have s: "status order1 = status (fst (finish_pass order new1 stL))" by (simp add: o1)
  from finish_pass_replay [OF s n2, of "st1\<lparr>logged := lg\<rparr>"] obtain lg' where
    "finish_pass (order\<lparr>status := status order1\<rparr>) new2 (st1\<lparr>logged := lg\<rparr>)
       = (order\<lparr>status := status order1\<rparr>,
          (st1\<lparr>logged := lg\<rparr>)\<lparr>logged := lg',
             writes := writes (st1\<lparr>logged := lg\<rparr>)
                @ [Save_order (order\<lparr>status := status order1\<rparr>)]\<rparr>)"
    by (rule exE)
  with r2 have "store_report cfg now' racing' order1 rep indented_status st1
      = Inr (order1, st1\<lparr>logged := lg', writes := writes st1 @ [Save_order order1]\<rparr>)"
    unfolding eq by simp
  then show ?thesis by simp
qed

text \<open>
  Claim C7 as it is stated fails, in three ways. The second pass always saves the
  order again, so it is not without a write, though it sends no signal (first
  conjunct). With two entries of the same id that differ, the second pass updates
  the row twice and sends signals (second conjunct). And without payments the
  status depends on the clock: an order that the first pass leaves \<open>NEW\<close> one day
  after its creation is \<open>EXPIRED\<close> by the same report 22 days after it (third
  conjunct).
\<close>

theorem replay_counterexample:
  "map_sum id (\<lambda>(first, second). (events (snd second) = events (snd first),
                                    writes (snd second) = writes (snd first)))
      (replay example_settings 0 0 {} (example_order STATUS_NEW 0)
         (example_report (example_totals 1000 0 0 0) (Some [example_line 1 ''NEW'' ''EUR'']))
         None empty_state)
     = Inr (True, False)
   \<and> map_sum id (\<lambda>(first, second). events (snd second) = events (snd first))
      (replay example_settings 0 0 {} (example_order STATUS_NEW 0)
         (example_report (example_totals 1000 0 0 0)
            (Some [example_line 1 ''NEW'' ''EUR'', example_line 1 ''CANCELLED'' ''EUR'']))
         None empty_state)
     = Inr False
   \<and> map_sum id (\<lambda>(first, second). (status (fst first), status (fst second)))
      (replay example_settings (timedelta_days 1) (timedelta_days 22) {}
         (example_order STATUS_NEW 0)
         (example_report (example_totals 1000 0 0 0) None) None empty_state)
     = Inr (STATUS_NEW, STATUS_EXPIRED)"
  by (simp add: replay_def example_defs pass_defs Let_def)

text \<open>
  Claim C7, amended. Let a first pass return, on a table in which every row is
  stored under its own payment id and for a report whose payment ids are pairwise
  distinct. A second pass over the same report with the same intended status, on
  the order and the state the first pass left and at a clock reading on the same
  side of the 21-day test, returns the same order, sends no signal (no
  payment-added, no payment-updated, no order-status-changed), leaves every payment
  line as it is stored, and makes one write, the save of the unchanged order.
\<close>

theorem replay_changes_nothing:
  assumes run: "store_report cfg now racing order rep indented_status st = Inr (order1, st1)"
    and wf: "table_wf (payments_table st)"
    and di: "\<forall>ps. r_payment rep = Some ps \<longrightarrow> distinct (map p_id ps)"
    and clock: "(created order < now' - timedelta_days 21)
                  = (created order < now - timedelta_days 21)"
  shows "\<exists>st2. store_report cfg now' racing' order1 rep indented_status st1 = Inr (order1, st2)
      \<and> payments_table st2 = payments_table st1
      \<and> events st2 = events st1
      \<and> writes st2 = writes st1 @ [Save_order order1]"
proof (cases "r_payment rep")
  case None
  let ?t = "approximateTotals rep"
  let ?o = "store_totals order ?t"
  let ?n = "no_payment_status now ?o ?t indented_status"
  let ?n2 = "no_payment_status now' (?o\<lparr>status := status order1\<rparr>) ?t indented_status"
  from run have f: "(order1, st1) = finish_pass ?o (fst ?n) (st\<lparr>logged := logged st @ snd ?n\<rparr>)"
    unfolding store_report_no_payment [OF None] by simp
  then have o1: "order1 = fst (finish_pass ?o (fst ?n) (st\<lparr>logged := logged st @ snd ?n\<rparr>))"
    by (simp add: prod_eq_iff)
  have s1: "status order1 = (if fst ?n = status ?o \<or> fst ?n \<in> set STATUS_CHOICES
                             then fst ?n else STATUS_UNKNOWN)"
    unfolding o1 by (rule status_finish_pass)
  from clock have clock': "(created ?o < now' - timedelta_days 21)
                = (created ?o < now - timedelta_days 21)" by simp
  from no_payment_status_replay [OF refl s1 clock']
  have n2: "fst ?n2 = fst ?n \<or> fst ?n2 = status order1" .
  have r2: "store_report cfg now' racing' (?o\<lparr>status := status order1\<rparr>) rep indented_status st1
         = Inr (finish_pass (?o\<lparr>status := status order1\<rparr>) (fst ?n2)
                 (st1\<lparr>logged := logged st1 @ snd ?n2\<rparr>))"
    unfolding store_report_no_payment [OF None] by (simp add: store_totals_status)
  show ?thesis by (rule replay_finish [OF f r2 n2])
next
  case (Some ps)
  let ?t = "approximateTotals rep"
  let ?o = "store_totals order ?t"
  from run Some obtain new1 objs stL where
    l: "store_report_lines cfg ?o rep racing st = Inr (new1, objs, stL)"
    and f: "(order1, st1) = finish_pass ?o new1 stL"
    by (auto simp: store_report_def Let_def split: sum.splits)
  from f have o1: "order1 = fst (finish_pass ?o new1 stL)"
    and st1: "st1 = snd (finish_pass ?o new1 stL)"
    by (simp_all add: prod_eq_iff)
  have s1: "status order1 = (if new1 = status ?o \<or> new1 \<in> set STATUS_CHOICES
                             then new1 else STATUS_UNKNOWN)"
    unfolding o1 by (rule status_finish_pass)
  have tab: "payments_table st1 = payments_table stL"
    unfolding st1 by (rule finish_pass_state)
  from di Some have d: "distinct (map p_id ps)" by simp
  from store_report_lines_replay [OF l wf Some d s1 tab, of racing']
  obtain new2 objs2 lg where
    l2: "store_report_lines cfg (?o\<lparr>status := status order1\<rparr>) rep racing' st1
           = Inr (new2, objs2, st1\<lparr>logged := lg\<rparr>)"
    and n2: "new2 = new1 \<or> new2 = status order1"
    by (elim exE conjE)
  have r2: "store_report cfg now' racing' (?o\<lparr>status := status order1\<rparr>) rep indented_status st1
         = Inr (finish_pass (?o\<lparr>status := status order1\<rparr>) new2 (st1\<lparr>logged := lg\<rparr>))"
    using Some l2 by (simp add: store_report_def Let_def store_totals_status)
  show ?thesis by (rule replay_finish [OF f r2 n2])
qed

theorem replay_changes_nothing_witness:
  "\<exists>order1 st1 st2.
     store_report example_settings 0 {} (example_order STATUS_NEW 0)
       (example_report (example_totals 1000 1000 0 0)
          (Some [example_line 2 ''NEW'' ''EUR'', example_line 1 ''AUTHORIZED'' ''EUR'']))
       None empty_state = Inr (order1, st1)
     \<and> status order1 = STATUS_PAID
     \<and> store_report example_settings (timedelta_days 1) {2} order1
       (example_report (example_totals 1000 1000 0 0)
          (Some [example_line 2 ''NEW'' ''EUR'', example_line 1 ''AUTHORIZED'' ''EUR'']))
       None st1 = Inr (order1, st2)
     \<and> payments_table st2 = payments_table st1
     \<and> events st2 = events st1
     \<and> writes st2 = writes st1 @ [Save_order order1]"
proof -
  let ?r = "example_report (example_totals 1000 1000 0 0)
          (Some [example_line 2 ''NEW'' ''EUR'', example_line 1 ''AUTHORIZED'' ''EUR''])"
  let ?run = "store_report example_settings 0 {} (example_order STATUS_NEW 0) ?r None empty_state"
  have "\<exists>r. ?run = Inr r \<and> status (fst r) = STATUS_PAID"
    by (simp add: example_defs pass_defs Let_def)
  then obtain r where r: "?run = Inr r" and s: "status (fst r) = STATUS_PAID"
    by (elim exE conjE)
  obtain order1 st1 where p: "r = (order1, st1)" by (cases r)
  from r p have run: "?run = Inr (order1, st1)" by simp
  have wf: "table_wf (payments_table empty_state)"
    by (simp add: table_wf_def empty_state_def)
  have di: "\<forall>ps. r_payment ?r = Some ps \<longrightarrow> distinct (map p_id ps)"
    by (simp add: example_report_def example_line_def)
  have clock: "(created (example_order STATUS_NEW 0) < timedelta_days 1 - timedelta_days 21)
     = (created (example_order STATUS_NEW 0) < 0 - timedelta_days 21)"
    by (simp add: example_order_def timedelta_days_def)
  from replay_changes_nothing [OF run wf di clock, of "{2}"] obtain st2 where
    "store_report example_settings (timedelta_days 1) {2} order1 ?r None st1 = Inr (order1, st2)"
    "payments_table st2 = payments_table st1" "events st2 = events st1"
    "writes st2 = writes st1 @ [Save_order order1]"
    by (elim exE conjE)
  with run s p show ?thesis by (intro exI conjI) simp_all
qed

subsection \<open>The same report with its payments in another order\<close>










end
